theory Spec2Isabelle
  imports Complex_Main "HOL-Library.Multiset" "HOL-Library.Product_Lexorder"
begin

section \<open>Data model of \<open>mnf-app/app.py\<close>\<close>

text \<open>
  The application loads one CSV file into a pandas DataFrame \<open>data_all\<close> and derives
  every displayed value from it. The embedding keeps the DataFrame dynamic, as pandas
  has it: a list of column names and a list of rows, each row a list of cells.

  Numbers are pandas' \<open>float64\<close>/\<open>int64\<close> cells. A finite number carries its exact
  rational value (rounding and overflow of the machine formats are not modelled); the
  three special values of IEEE-754 arithmetic are separate constructors, because the
  source reaches them (division by zero, missing values read as NaN).

  A timestamp is a calendar date (line 14 parses the column with \<open>%d/%m/%Y\<close>, so the
  time of day is always midnight); it is kept as (year, month, day), whose
  lexicographic order is the chronological one. \<open>NaT\<close> is pandas' missing timestamp.
\<close>

datatype num = Fin rat | PInf | NInf | NaN

type_synonym date = "nat \<times> nat \<times> nat"

datatype cell = Num num | Str string | TS date | NaT

datatype error = KeyError | TypeError | ValueError

type_synonym row = "cell list"

record frame =
  columns :: "string list"
  rows :: "row list"

text \<open>Sequencing of computations that may raise.\<close>

fun bindE :: "error + 'a \<Rightarrow> ('a \<Rightarrow> error + 'b) \<Rightarrow> error + 'b" where
  "bindE (Inl e) f = Inl e"
| "bindE (Inr x) f = f x"

fun mapE :: "('a \<Rightarrow> error + 'b) \<Rightarrow> 'a list \<Rightarrow> error + 'b list" where
  "mapE f [] = Inr []"
| "mapE f (x # xs) = bindE (f x) (\<lambda>y. bindE (mapE f xs) (\<lambda>ys. Inr (y # ys)))"

subsection \<open>IEEE-754 arithmetic on the idealised numbers\<close>

fun fneg :: "num \<Rightarrow> num" where
  "fneg (Fin a) = Fin (- a)"
| "fneg PInf = NInf"
| "fneg NInf = PInf"
| "fneg NaN = NaN"

fun fadd :: "num \<Rightarrow> num \<Rightarrow> num" where
  "fadd (Fin a) (Fin b) = Fin (a + b)"
| "fadd NaN y = NaN"
| "fadd x NaN = NaN"
| "fadd PInf NInf = NaN"
| "fadd NInf PInf = NaN"
| "fadd PInf y = PInf"
| "fadd NInf y = NInf"
| "fadd x PInf = PInf"
| "fadd x NInf = NInf"

definition fsub :: "num \<Rightarrow> num \<Rightarrow> num" where
  "fsub x y = fadd x (fneg y)"

text \<open>The sign of a number, used by multiplication and division: \<open>None\<close> for NaN.\<close>

fun fsign :: "num \<Rightarrow> int option" where
  "fsign (Fin a) = Some (if a < 0 then - 1 else if a = 0 then 0 else 1)"
| "fsign PInf = Some 1"
| "fsign NInf = Some (- 1)"
| "fsign NaN = None"

definition inf_of_sign :: "int \<Rightarrow> num" where
  "inf_of_sign s = (if s < 0 then NInf else if s = 0 then NaN else PInf)"

fun is_inf :: "num \<Rightarrow> bool" where
  "is_inf PInf = True"
| "is_inf NInf = True"
| "is_inf x = False"

fun fmul :: "num \<Rightarrow> num \<Rightarrow> num" where
  "fmul (Fin a) (Fin b) = Fin (a * b)"
| "fmul x y =
     (case (fsign x, fsign y) of
        (Some s, Some t) \<Rightarrow> inf_of_sign (s * t)
      | _ \<Rightarrow> NaN)"

text \<open>
  numpy's true division does not raise on a zero divisor: it returns a signed infinity,
  or NaN for \<open>0 / 0\<close> (with a RuntimeWarning only).
\<close>

fun fdiv :: "num \<Rightarrow> num \<Rightarrow> num" where
  "fdiv (Fin a) (Fin b) =
     (if b = 0 then (if a < 0 then NInf else if a = 0 then NaN else PInf) else Fin (a / b))"
| "fdiv x y =
     (case (fsign x, fsign y) of
        (Some s, Some t) \<Rightarrow>
          (if is_inf x \<and> is_inf y then NaN
           else if is_inf y then Fin 0
           else inf_of_sign (s * (if t < 0 then - 1 else 1)))
      | _ \<Rightarrow> NaN)"

subsection \<open>Column access\<close>

fun index_of :: "string \<Rightarrow> string list \<Rightarrow> nat option" where
  "index_of name [] = None"
| "index_of name (c # cs) =
     (if c = name then Some 0 else map_option Suc (index_of name cs))"

text \<open>\<open>df[name]\<close>: the cells of one column, or KeyError when no column has the name.\<close>

definition getitem :: "frame \<Rightarrow> string \<Rightarrow> error + cell list" where
  "getitem df name =
     (case index_of name (columns df) of
        None \<Rightarrow> Inl KeyError
      | Some j \<Rightarrow> Inr (map (\<lambda>r. r ! j) (rows df)))"


text \<open>
  \<open>s.iloc[k]\<close> for a negative position \<open>k = -m\<close>: counted from the end. The source
  only uses it behind a length test, so the out-of-range case never runs.
\<close>

definition iloc_neg :: "'a list \<Rightarrow> nat \<Rightarrow> 'a" where
  "iloc_neg xs m = xs ! (length xs - m)"

section \<open>Metrics stage\<close>

text \<open>
  Source lines 77-88. The arithmetic only touches the last two cells of the column;
  a cell that is not a number makes it raise TypeError.
\<close>

fun num_of :: "cell \<Rightarrow> error + num" where
  "num_of (Num v) = Inr v"
| "num_of c = Inl TypeError"

definition get_change :: "frame \<Rightarrow> error + num" where
  "get_change df =
     bindE (getitem df ''Close'') (\<lambda>close.
       if length close > 1 then
         bindE (num_of (iloc_neg close 1)) (\<lambda>a.
         bindE (num_of (iloc_neg close 2)) (\<lambda>b. Inr (fsub a b)))
       else Inr (Fin 0))"

definition get_change_percent :: "frame \<Rightarrow> error + num" where
  "get_change_percent df =
     bindE (getitem df ''Close'') (\<lambda>close.
       if length close > 1 then
         bindE (num_of (iloc_neg close 1)) (\<lambda>a.
         bindE (num_of (iloc_neg close 2)) (\<lambda>b.
           let change = fsub a b in Inr (fmul (fdiv change b) (Fin 100))))
       else Inr (Fin 0))"

section \<open>Text of numbers and cells\<close>

text \<open>
  Python's \<open>f"{v:.2f}"\<close>: sign, integer part, a point and two digits, the value rounded
  to the nearest hundredth, ties to even; the special values print as words.
\<close>

definition digit_char :: "nat \<Rightarrow> char" where
  "digit_char d = ''0123456789'' ! d"

function show_nat :: "nat \<Rightarrow> string" where
  "show_nat n = (if n < 10 then [digit_char n] else show_nat (n div 10) @ [digit_char (n mod 10)])"
  by pat_completeness auto
termination
  by (relation "measure (\<lambda>n. n)") auto

declare show_nat.simps [simp del]

definition round_half_even :: "rat \<Rightarrow> int" where
  "round_half_even x =
     (let f = \<lfloor>x\<rfloor>; r = x - of_int f
      in if r < 1 / 2 then f else if 1 / 2 < r then f + 1
         else if even f then f else f + 1)"

fun format_2f :: "num \<Rightarrow> string" where
  "format_2f (Fin q) =
     (let n = nat (round_half_even (\<bar>q\<bar> * 100))
      in (if q < 0 then ''-'' else []) @ show_nat (n div 100) @ ''.''
         @ [digit_char (n mod 100 div 10), digit_char (n mod 10)])"
| "format_2f PInf = ''inf''"
| "format_2f NInf = ''-inf''"
| "format_2f NaN = ''nan''"

definition zero_pad :: "nat \<Rightarrow> string \<Rightarrow> string" where
  "zero_pad w s = replicate (w - length s) (CHR ''0'') @ s"

text \<open>
  \<open>str(v)\<close> of a cell that is not a number: a string is itself, a timestamp prints
  as date and time of day. The source never takes \<open>str\<close> of a number (line 155 formats
  numbers with \<open>.2f\<close>), so that case is left out.
\<close>

fun py_str :: "cell \<Rightarrow> string" where
  "py_str (Str s) = s"
| "py_str (TS (y, m, d)) =
     zero_pad 4 (show_nat y) @ ''-'' @ zero_pad 2 (show_nat m) @ ''-''
     @ zero_pad 2 (show_nat d) @ '' 00:00:00''"
| "py_str NaT = ''NaT''"

section \<open>Filter stage\<close>

text \<open>
  Source lines 62-75. The selection is what the two inputs deliver: the chosen ticker
  and the pair of dates.
\<close>

record selection =
  ticker :: string
  dates :: "date \<times> date"

text \<open>Line 15: the identifiers offered for selection.\<close>

fun unique :: "'a list \<Rightarrow> 'a list \<Rightarrow> 'a list" where
  "unique seen [] = []"
| "unique seen (x # xs) = (if x \<in> set seen then unique seen xs else x # unique (x # seen) xs)"

definition tickers :: "frame \<Rightarrow> cell list" where
  "tickers data_all =
     (if ''Ticker'' \<in> set (columns data_all)
      then (case getitem data_all ''Ticker'' of Inr col \<Rightarrow> unique [] col | Inl e \<Rightarrow> [])
      else [Str ''LOCAL''])"

text \<open>\<open>df["Ticker"] == input.ticker()\<close>, cell by cell; equality never raises.\<close>

fun eq_str :: "cell \<Rightarrow> string \<Rightarrow> bool" where
  "eq_str (Str s) t = (s = t)"
| "eq_str c t = False"

text \<open>
  Comparison of a timestamp cell with a date. A comparison with NaT is False; a cell
  that is neither (never the case after line 14) cannot be compared.
\<close>

fun ge_ts :: "cell \<Rightarrow> date \<Rightarrow> error + bool" where
  "ge_ts (TS t) s = Inr (s \<le> t)"
| "ge_ts NaT s = Inr False"
| "ge_ts c s = Inl TypeError"

fun le_ts :: "cell \<Rightarrow> date \<Rightarrow> error + bool" where
  "le_ts (TS t) e = Inr (t \<le> e)"
| "le_ts NaT e = Inr False"
| "le_ts c e = Inl TypeError"

text \<open>Boolean indexing \<open>df[mask]\<close> and \<open>df.loc[mask]\<close>: the rows where the mask is True.\<close>

definition select_rows :: "bool list \<Rightarrow> frame \<Rightarrow> frame" where
  "select_rows msk df = df\<lparr>rows := map snd (filter fst (zip msk (rows df)))\<rparr>"

text \<open>
  \<open>df.sort_values("Date")\<close> computes an indexer and takes the rows in that order. The
  indexer is numpy's \<open>argsort\<close> of the keys that are not NaT, followed by the positions
  of the NaT keys. \<open>sort_values\<close> is called with its default \<open>kind='quicksort'\<close>, which
  numpy does not document as stable (only \<open>mergesort\<close>/\<open>stable\<close> are), so which of two
  equal keys comes first is the sorting routine's choice. The routine is a parameter
  of the model; \<open>argsort_ok\<close> is what every numpy sort guarantees.
\<close>

type_synonym sorter = "date list \<Rightarrow> nat list"

definition argsort_ok :: "sorter \<Rightarrow> bool" where
  "argsort_ok srt \<longleftrightarrow>
     (\<forall>ks. mset (srt ks) = mset [0..<length ks] \<and> sorted (map (\<lambda>i. ks ! i) (srt ks)))"

fun ts_of :: "cell \<Rightarrow> error + date option" where
  "ts_of (TS t) = Inr (Some t)"
| "ts_of NaT = Inr None"
| "ts_of c = Inl TypeError"

definition sort_values :: "sorter \<Rightarrow> string \<Rightarrow> frame \<Rightarrow> error + frame" where
  "sort_values srt key df =
     bindE (getitem df key) (\<lambda>col.
     bindE (mapE ts_of col) (\<lambda>ks.
       let idx = [0..<length ks];
           non_nan_idx = filter (\<lambda>i. ks ! i \<noteq> None) idx;
           nan_idx = filter (\<lambda>i. ks ! i = None) idx;
           non_nans = map (\<lambda>i. the (ks ! i)) non_nan_idx;
           indexer = map (\<lambda>j. non_nan_idx ! j) (srt non_nans) @ nan_idx
       in Inr (df\<lparr>rows := map (\<lambda>i. rows df ! i) indexer\<rparr>)))"

definition filter_ticker :: "frame \<Rightarrow> string \<Rightarrow> error + frame" where
  "filter_ticker df t =
     (if ''Ticker'' \<in> set (columns df)
      then bindE (getitem df ''Ticker'') (\<lambda>col. Inr (select_rows (map (\<lambda>c. eq_str c t) col) df))
      else Inr df)"

definition date_mask :: "frame \<Rightarrow> date \<times> date \<Rightarrow> error + bool list" where
  "date_mask df ds =
     bindE (getitem df ''Date'') (\<lambda>col.
     bindE (mapE (\<lambda>c. ge_ts c (fst ds)) col) (\<lambda>m1.
     bindE (getitem df ''Date'') (\<lambda>col2.
     bindE (mapE (\<lambda>c. le_ts c (snd ds)) col2) (\<lambda>m2.
       Inr (map (\<lambda>(a, b). a \<and> b) (zip m1 m2))))))"

definition get_data :: "sorter \<Rightarrow> frame \<Rightarrow> selection \<Rightarrow> error + frame" where
  "get_data srt data_all sel =
     bindE (filter_ticker data_all (ticker sel)) (\<lambda>df.
     bindE (date_mask df (dates sel)) (\<lambda>msk.
       sort_values srt ''Date'' (select_rows msk df)))"

text \<open>Two sorting routines that meet \<open>argsort_ok\<close>: the first keeps equal keys in
  their original order (a stable sort), the second reverses them.\<close>

definition stable_argsort :: sorter where
  "stable_argsort ks = sort_key (\<lambda>i. ks ! i) [0..<length ks]"


section \<open>Displayed scalars\<close>

text \<open>
  Source lines 90-108. A format specification \<open>.2f\<close> applies to numbers; on a string
  Python raises ValueError. The model raises for every cell that is not a number,
  which is what happens on the strings a CSV column can hold besides numbers.
\<close>

fun format_cell_2f :: "cell \<Rightarrow> error + string" where
  "format_cell_2f (Num v) = Inr (format_2f v)"
| "format_cell_2f c = Inl ValueError"

definition price :: "frame \<Rightarrow> error + string" where
  "price df =
     bindE (getitem df ''Close'') (\<lambda>close.
       if close \<noteq> [] then format_cell_2f (iloc_neg close 1) else Inr ''N/A'')"

definition change :: "frame \<Rightarrow> error + string" where
  "change df = bindE (get_change df) (\<lambda>c. Inr (''$'' @ format_2f c))"

definition change_percent :: "frame \<Rightarrow> error + string" where
  "change_percent df = bindE (get_change_percent df) (\<lambda>c. Inr (format_2f c @ ''%''))"

text \<open>\<open>change >= 0\<close> on a float: False for NaN.\<close>

fun ge_zero :: "num \<Rightarrow> bool" where
  "ge_zero (Fin a) = (0 \<le> a)"
| "ge_zero PInf = True"
| "ge_zero NInf = False"
| "ge_zero NaN = False"

definition change_icon :: "frame \<Rightarrow> error + string \<times> string" where
  "change_icon df =
     bindE (get_change df) (\<lambda>c.
       Inr (if ge_zero c then ''arrow-up'' else ''arrow-down'',
            ''text-'' @ (if ge_zero c then ''success'' else ''danger'')))"

section \<open>Series stage\<close>

text \<open>
  Source lines 110-145. \<open>Series.rolling(window=7).mean()\<close> has \<open>min_periods\<close> equal
  to the window: the value at a position is the mean of the window ending there when the
  window holds 7 valid observations, and NaN otherwise (fewer than 7 positions, or a
  missing or infinite value among them).
\<close>

fun fin_val :: "num \<Rightarrow> rat option" where
  "fin_val (Fin a) = Some a"
| "fin_val x = None"

definition window_mean :: "num list \<Rightarrow> num" where
  "window_mean w =
     (if list_all (\<lambda>v. fin_val v \<noteq> None) w
      then Fin (sum_list (map (\<lambda>v. the (fin_val v)) w) / of_nat (length w))
      else NaN)"

definition rolling_mean :: "nat \<Rightarrow> num list \<Rightarrow> num list" where
  "rolling_mean w cs =
     map (\<lambda>i. if i + 1 < w then NaN else window_mean (take w (drop (i + 1 - w) cs)))
       [0..<length cs]"

text \<open>\<open>df[name] = col\<close>: replaces the column of that name, or appends a new one.\<close>

definition setitem :: "frame \<Rightarrow> string \<Rightarrow> cell list \<Rightarrow> frame" where
  "setitem df name col =
     (case index_of name (columns df) of
        None \<Rightarrow> df\<lparr>columns := columns df @ [name],
                    rows := map (\<lambda>(r, c). r @ [c]) (zip (rows df) col)\<rparr>
      | Some j \<Rightarrow> df\<lparr>rows := map (\<lambda>(r, c). r[j := c]) (zip (rows df) col)\<rparr>)"

text \<open>\<open>reset_index(drop=True)\<close> renumbers the row labels, which the model does not
  carry; the rows and columns are those of the argument, in a new object.\<close>

definition reset_index :: "frame \<Rightarrow> frame" where
  "reset_index df = df"

record figure =
  candle_x :: "cell list"
  candle_open :: "cell list"
  candle_high :: "cell list"
  candle_low :: "cell list"
  candle_close :: "cell list"
  candle_name :: string
  sma_trace :: "(cell list \<times> cell list) option"

text \<open>
  The body of \<open>price_history\<close> on its local frame \<open>df\<close>. It returns the figure and the
  final value of \<open>df\<close>, which line 130 changes in place.
\<close>

definition price_history_body :: "frame \<Rightarrow> string \<Rightarrow> error + figure \<times> frame" where
  "price_history_body df name =
     bindE (getitem df ''Date'') (\<lambda>x.
     bindE (getitem df ''Open'') (\<lambda>opn.
     bindE (getitem df ''High'') (\<lambda>hi.
     bindE (getitem df ''Low'') (\<lambda>lo.
     bindE (getitem df ''Close'') (\<lambda>cl.
       let fig = \<lparr>candle_x = x, candle_open = opn, candle_high = hi, candle_low = lo,
                  candle_close = cl, candle_name = name, sma_trace = None\<rparr>
       in if length (rows df) \<ge> 7 then
            bindE (getitem df ''Close'') (\<lambda>c.
            bindE (mapE num_of c) (\<lambda>cs.
              let df' = setitem df ''SMA'' (map Num (rolling_mean 7 cs))
              in bindE (getitem df' ''Date'') (\<lambda>x'.
                 bindE (getitem df' ''SMA'') (\<lambda>y.
                   Inr (fig\<lparr>sma_trace := Some (x', y)\<rparr>, df')))))
          else Inr (fig, df))))))"

definition price_history :: "frame \<Rightarrow> string \<Rightarrow> error + figure" where
  "price_history data name =
     bindE (price_history_body (reset_index data) name) (\<lambda>(fig, df). Inr fig)"

text \<open>The overlay of the chart: the values of the SMA trace, when the figure has one.\<close>

definition overlay :: "frame \<Rightarrow> string \<Rightarrow> error + cell list option" where
  "overlay data name =
     bindE (price_history data name) (\<lambda>fig. Inr (map_option snd (sma_trace fig)))"

section \<open>Snapshot stage\<close>

text \<open>
  Source lines 147-156. The last row is transposed into one row per column, the
  column's name in \<open>Category\<close> and the cell in \<open>Value\<close>; a number is formatted with
  \<open>.2f\<close>, anything else with \<open>str\<close>.
\<close>

definition format_value :: "cell \<Rightarrow> string" where
  "format_value v = (case v of Num x \<Rightarrow> format_2f x | _ \<Rightarrow> py_str v)"

definition latest_data :: "frame \<Rightarrow> frame" where
  "latest_data df =
     (if rows df = [] \<or> columns df = []
      then \<lparr>columns = [''Category'', ''Value''], rows = []\<rparr>
      else \<lparr>columns = [''Category'', ''Value''],
            rows = map (\<lambda>(n, v). [Str n, Str (format_value v)])
                     (zip (columns df) (last (rows df)))\<rparr>)"

text \<open>The (name, value) pairs of a snapshot, read off its two columns.\<close>

fun pair_of_row :: "row \<Rightarrow> string \<times> string" where
  "pair_of_row [Str c, Str v] = (c, v)"
| "pair_of_row r = ([], [])"

definition latestSnapshot :: "frame \<Rightarrow> (string \<times> string) list" where
  "latestSnapshot df = map pair_of_row (rows (latest_data df))"

section \<open>Objects and their identity\<close>

text \<open>
  \<open>data_all\<close> is one object that every session reads. The store maps object
  references to frames; \<open>next_ref\<close> is the first reference not yet in use. Every
  pandas call of the source that returns a DataFrame (\<open>copy\<close>, boolean indexing,
  \<open>loc\<close>, \<open>sort_values\<close>, \<open>reset_index\<close>, \<open>iloc\<close>/\<open>T\<close>) returns a new object; the only
  statements that change an object in place are the column assignments of lines 130
  and 154-155.
\<close>

record store =
  heap :: "nat \<Rightarrow> frame"
  next_ref :: nat

definition new_obj :: "frame \<Rightarrow> store \<Rightarrow> nat \<times> store" where
  "new_obj f st = (next_ref st, st\<lparr>heap := (heap st)(next_ref st := f), next_ref := Suc (next_ref st)\<rparr>)"

definition assign_obj :: "nat \<Rightarrow> frame \<Rightarrow> store \<Rightarrow> store" where
  "assign_obj r f st = st\<lparr>heap := (heap st)(r := f)\<rparr>"

definition get_data_st :: "sorter \<Rightarrow> nat \<Rightarrow> selection \<Rightarrow> store \<Rightarrow> (error + nat) \<times> store" where
  "get_data_st srt data_all sel st =
     (let (df, st1) = new_obj (heap st data_all) st
      in case filter_ticker (heap st1 df) (ticker sel) of
           Inl e \<Rightarrow> (Inl e, st1)
         | Inr f \<Rightarrow>
             let (df2, st2) = (if ''Ticker'' \<in> set (columns (heap st1 df))
                               then new_obj f st1 else (df, st1))
             in case date_mask (heap st2 df2) (dates sel) of
                  Inl e \<Rightarrow> (Inl e, st2)
                | Inr msk \<Rightarrow>
                    let (df3, st3) = new_obj (select_rows msk (heap st2 df2)) st2
                    in case sort_values srt ''Date'' (heap st3 df3) of
                         Inl e \<Rightarrow> (Inl e, st3)
                       | Inr f4 \<Rightarrow> let (df4, st4) = new_obj f4 st3 in (Inr df4, st4))"

definition price_history_st :: "nat \<Rightarrow> string \<Rightarrow> store \<Rightarrow> (error + figure) \<times> store" where
  "price_history_st data name st =
     (let (df, st1) = new_obj (reset_index (heap st data)) st
      in case price_history_body (heap st1 df) name of
           Inl e \<Rightarrow> (Inl e, st1)
         | Inr (fig, df') \<Rightarrow> (Inr fig, assign_obj df df' st1))"

definition latest_data_st :: "nat \<Rightarrow> store \<Rightarrow> nat \<times> store" where
  "latest_data_st data st = new_obj (latest_data (heap st data)) st"

text \<open>
  One evaluation of the server for a selection: \<open>get_data\<close> is computed once (it is a
  cached reactive calculation) and every output reads its result.
\<close>

record outputs =
  out_price :: "error + string"
  out_change :: "error + string"
  out_change_icon :: "error + string \<times> string"
  out_change_percent :: "error + string"
  out_price_history :: "error + figure"
  out_latest_data :: "error + frame"

definition failed :: "error \<Rightarrow> outputs" where
  "failed e = \<lparr>out_price = Inl e, out_change = Inl e, out_change_icon = Inl e,
              out_change_percent = Inl e, out_price_history = Inl e, out_latest_data = Inl e\<rparr>"

definition server :: "sorter \<Rightarrow> nat \<Rightarrow> selection \<Rightarrow> store \<Rightarrow> outputs \<times> store" where
  "server srt data_all sel st =
     (case get_data_st srt data_all sel st of
        (Inl e, st1) \<Rightarrow> (failed e, st1)
      | (Inr data, st1) \<Rightarrow>
          let (fig, st2) = price_history_st data (ticker sel) st1;
              (latest, st3) = latest_data_st data st2
          in (\<lparr>out_price = price (heap st1 data),
               out_change = change (heap st1 data),
               out_change_icon = change_icon (heap st1 data),
               out_change_percent = change_percent (heap st1 data),
               out_price_history = fig,
               out_latest_data = Inr (heap st3 latest)\<rparr>, st3))"

section \<open>Vocabulary of the properties\<close>

text \<open>A string that ends in a point and exactly two digits, after a non-empty part
  without a point: the shape \<open>1234.50\<close>.\<close>

fun is_digit :: "char \<Rightarrow> bool" where
  "is_digit c = (c \<in> set ''0123456789'')"

fun two_decimals_rev :: "string \<Rightarrow> bool" where
  "two_decimals_rev (d2 # d1 # p # rest) =
     (is_digit d2 \<and> is_digit d1 \<and> p = CHR ''.'' \<and> rest \<noteq> [] \<and> CHR ''.'' \<notin> set rest)"
| "two_decimals_rev s = False"

definition two_decimals :: "string \<Rightarrow> bool" where
  "two_decimals s = two_decimals_rev (rev s)"

text \<open>
  What lines 13-14 establish for \<open>data_all\<close>: it has a Date column, and
  \<open>pd.to_datetime\<close> has made each of its cells a timestamp or NaT.
\<close>

fun is_stamp :: "cell \<Rightarrow> bool" where
  "is_stamp (TS t) = True"
| "is_stamp NaT = True"
| "is_stamp c = False"

definition loaded :: "frame \<Rightarrow> bool" where
  "loaded df \<longleftrightarrow>
     (case getitem df ''Date'' of Inr col \<Rightarrow> list_all is_stamp col | Inl e \<Rightarrow> False)"

text \<open>
  The rows a selection asks for, in the words of the specification: the instrument
  matches when the dataset has an instrument column, and the timestamp lies in the
  closed range.
\<close>

definition in_selection :: "frame \<Rightarrow> selection \<Rightarrow> row \<Rightarrow> bool" where
  "in_selection D sel r \<longleftrightarrow>
     (case index_of ''Ticker'' (columns D) of
        None \<Rightarrow> True
      | Some j \<Rightarrow> r ! j = Str (ticker sel)) \<and>
     (case index_of ''Date'' (columns D) of
        None \<Rightarrow> False
      | Some k \<Rightarrow> (case r ! k of
                    TS t \<Rightarrow> fst (dates sel) \<le> t \<and> t \<le> snd (dates sel)
                  | _ \<Rightarrow> False))"

text \<open>The timestamp of a row, for rows whose Date cell is one.\<close>

fun the_ts :: "cell \<Rightarrow> date" where
  "the_ts (TS t) = t"
| "the_ts c = (0, 0, 0)"

definition date_at :: "frame \<Rightarrow> row \<Rightarrow> date" where
  "date_at D r = (case index_of ''Date'' (columns D) of Some k \<Rightarrow> the_ts (r ! k) | None \<Rightarrow> (0, 0, 0))"

text \<open>
  A later store keeps the objects of an earlier one: every reference in use then is
  still in use and holds the same frame.
\<close>

definition keeps_objects :: "store \<Rightarrow> store \<Rightarrow> bool" where
  "keeps_objects st st' \<longleftrightarrow>
     next_ref st \<le> next_ref st' \<and> (\<forall>r<next_ref st. heap st' r = heap st r)"

definition store_of :: "frame \<Rightarrow> store" where
  "store_of data = \<lparr>heap = (\<lambda>r. data), next_ref = 1\<rparr>"

text \<open>Example series: one row per close, on consecutive days.\<close>

definition closes_frame :: "num list \<Rightarrow> frame" where
  "closes_frame cs = \<lparr>columns = [''Date'', ''Close''],
      rows = map (\<lambda>(i, c). [TS (2024, 1, Suc i), Num c]) (zip [0..<length cs] cs)\<rparr>"


text \<open>Example datasets: two instruments; a single implicit instrument; two rows
  of one day; and a flat series of any length with all four prices equal.\<close>

definition prices :: frame where
  "prices = \<lparr>columns = [''Ticker'', ''Date'', ''Open'', ''High'', ''Low'', ''Close''],
     rows = [[Str ''AAA'', TS (2024, 1, 3), Num (Fin 101), Num (Fin 106), Num (Fin 99), Num (Fin 105)],
             [Str ''BBB'', TS (2024, 1, 2), Num (Fin 7), Num (Fin 8), Num (Fin 6), Num (Fin 7)],
             [Str ''AAA'', TS (2024, 1, 2), Num (Fin 98), Num (Fin 102), Num (Fin 97), Num (Fin 100)],
             [Str ''AAA'', TS (2023, 12, 29), Num (Fin 90), Num (Fin 95), Num (Fin 89), Num (Fin 94)]]\<rparr>"

definition local_prices :: frame where
  "local_prices = \<lparr>columns = [''Date'', ''Open'', ''High'', ''Low'', ''Close''],
     rows = [[TS (2024, 1, 2), Num (Fin 98), Num (Fin 102), Num (Fin 97), Num (Fin 100)],
             [TS (2024, 1, 3), Num (Fin 101), Num (Fin 106), Num (Fin 99), Num (Fin 105)]]\<rparr>"


definition flat_frame :: "num list \<Rightarrow> frame" where
  "flat_frame cs = \<lparr>columns = [''Date'', ''Open'', ''High'', ''Low'', ''Close''],
      rows = map (\<lambda>(i, c). [TS (2024, 1, Suc i), Num c, Num c, Num c, Num c])
               (zip [0..<length cs] cs)\<rparr>"

definition january :: "string \<Rightarrow> selection" where
  "january t = \<lparr>ticker = t, dates = ((2024, 1, 1), (2024, 1, 31))\<rparr>"

section \<open>Properties\<close>

subsection \<open>Auxiliary facts\<close>


lemma digit_char_is_digit: "d < 10 \<Longrightarrow> digit_char d \<in> set ''0123456789''"
proof -
  assume "d < 10"
  then have "d \<in> {0,1,2,3,4,5,6,7,8,9}" by auto
  then show ?thesis unfolding digit_char_def by auto
qed

lemma show_nat_digits: "set (show_nat n) \<subseteq> set ''0123456789'' \<and> show_nat n \<noteq> []"
proof (induction n rule: show_nat.induct)
  case (1 n)
  show ?case
  proof (cases "n < 10")
    case True
    then show ?thesis using digit_char_is_digit [of n] by (subst (1 2) show_nat.simps) simp
  next
    case False
    have "n mod 10 < 10" by simp
    then have d: "digit_char (n mod 10) \<in> set ''0123456789''" by (rule digit_char_is_digit)
    from False 1 have ih: "set (show_nat (n div 10)) \<subseteq> set ''0123456789''" by simp
    show ?thesis using False d ih by (subst (1 2) show_nat.simps) auto
  qed
qed

lemma format_2f_two_decimals: "two_decimals (format_2f (Fin q))"
proof -
  define n where "n = nat (round_half_even (\<bar>q\<bar> * 100))"
  have d1: "is_digit (digit_char (n mod 100 div 10))"
    using digit_char_is_digit [of "n mod 100 div 10"] by simp
  have d2: "is_digit (digit_char (n mod 10))"
    using digit_char_is_digit [of "n mod 10"] by simp
  have body: "CHR ''.'' \<notin> set (show_nat (n div 100))" "show_nat (n div 100) \<noteq> []"
    using show_nat_digits [of "n div 100"] by auto
  show ?thesis
    using d1 d2 body unfolding two_decimals_def
    by (auto simp: Let_def n_def [symmetric] simp del: is_digit.simps)
qed

lemmas fmt_eval =
  show_nat.simps round_half_even_def digit_char_def Let_def zero_pad_def format_value_def


subsection \<open>Facts about the filter stage\<close>

lemma mapE_Inr: "(\<And>x. x \<in> set xs \<Longrightarrow> f x = Inr (g x)) \<Longrightarrow> mapE f xs = Inr (map g xs)"
  by (induction xs) auto

lemma select_map: "map snd (filter fst (zip (map P xs) xs)) = filter P xs"
  by (induction xs) auto

lemma index_of_None: "index_of n cs = None \<longleftrightarrow> n \<notin> set cs"
  by (induction cs) auto


lemma getitem_Some:
  "index_of n (columns df) = Some j \<Longrightarrow> getitem df n = Inr (map (\<lambda>r. r ! j) (rows df))"
  by (simp add: getitem_def)

lemma getitem_rows_update [simp]:
  "getitem (df\<lparr>rows := rs\<rparr>) n =
     (case index_of n (columns df) of None \<Rightarrow> Inl KeyError | Some j \<Rightarrow> Inr (map (\<lambda>r. r ! j) rs))"
  by (simp add: getitem_def split: option.splits)

lemma stable_argsort_ok: "argsort_ok stable_argsort"
  by (simp add: argsort_ok_def stable_argsort_def)


lemma argsort_ok_set: "argsort_ok srt \<Longrightarrow> set (srt ks) = {0..<length ks}"
proof -
  assume "argsort_ok srt"
  then have "mset (srt ks) = mset [0..<length ks]" by (simp add: argsort_ok_def)
  then have "set (srt ks) = set [0..<length ks]" by (rule mset_eq_setD)
  then show ?thesis by simp
qed

lemma take_perm:
  assumes "mset p = mset [0..<length xs]"
  shows "mset (map (\<lambda>i. xs ! i) p) = mset xs"
proof -
  have "mset (map (\<lambda>i. xs ! i) p) = image_mset (\<lambda>i. xs ! i) (mset p)" by simp
  also have "\<dots> = image_mset (\<lambda>i. xs ! i) (mset [0..<length xs])" using assms by simp
  also have "\<dots> = mset (map (\<lambda>i. xs ! i) [0..<length xs])" by simp
  also have "\<dots> = mset xs" by (simp add: map_nth)
  finally show ?thesis .
qed

text \<open>\<open>sort_values\<close> on a frame whose key cells are all timestamps.\<close>

lemma sort_values_stamps:
  assumes k: "index_of key (columns df) = Some k"
    and ts: "\<And>r. r \<in> set (rows df) \<Longrightarrow> \<exists>t. r ! k = TS t"
    and ok: "argsort_ok srt"
  shows "sort_values srt key df =
           Inr (df\<lparr>rows := map (\<lambda>i. rows df ! i) (srt (map (\<lambda>r. the_ts (r ! k)) (rows df)))\<rparr>)"
proof -
  define ds where "ds = map (\<lambda>r. the_ts (r ! k)) (rows df)"
  define n where "n = length (rows df)"
  have len: "length ds = n" by (simp add: ds_def n_def)
  have col: "getitem df key = Inr (map (\<lambda>r. r ! k) (rows df))"
    using k by (rule getitem_Some)
  have "ts_of c = Inr (Some (the_ts c))" if "c \<in> set (map (\<lambda>r. r ! k) (rows df))" for c
  proof -
    from that obtain r where "r \<in> set (rows df)" "c = r ! k" by auto
    with ts [of r] show ?thesis by auto
  qed
  then have ks: "mapE ts_of (map (\<lambda>r. r ! k) (rows df)) = Inr (map Some ds)"
    using mapE_Inr [of "map (\<lambda>r. r ! k) (rows df)" ts_of "\<lambda>c. Some (the_ts c)"]
    by (simp add: ds_def comp_def)
  have nn: "filter (\<lambda>i. map Some ds ! i \<noteq> None) [0..<n] = [0..<n]"
    using len by (intro filter_True) auto
  have na: "filter (\<lambda>i. map Some ds ! i = None) [0..<n] = []"
    using len by (auto simp: filter_empty_conv)
  have vals: "map (\<lambda>i. the (map Some ds ! i)) [0..<n] = ds"
    using len by (intro nth_equalityI) auto
  have "set (srt ds) = {0..<n}" using argsort_ok_set [OF ok, of ds] len by simp
  then have idx: "map (\<lambda>j. [0..<n] ! j) (srt ds) = srt ds"
    by (intro map_idI) auto
  show ?thesis
    unfolding sort_values_def col bindE.simps ks Let_def length_map len nn na vals idx
    by (simp add: ds_def)
qed


lemma eq_str_iff: "eq_str c t \<longleftrightarrow> c = Str t"
  by (cases c) auto

lemma filter_ticker_eq:
  "filter_ticker df t =
     Inr (df\<lparr>rows := filter (\<lambda>r. case index_of ''Ticker'' (columns df) of
                                  None \<Rightarrow> True | Some j \<Rightarrow> r ! j = Str t) (rows df)\<rparr>)"
proof (cases "index_of ''Ticker'' (columns df)")
  case None
  then have "''Ticker'' \<notin> set (columns df)" by (simp add: index_of_None)
  with None show ?thesis by (simp add: filter_ticker_def)
next
  case (Some j)
  then have "''Ticker'' \<in> set (columns df)"
    using index_of_None [of "''Ticker''" "columns df"] by auto
  moreover have "map snd (filter fst (zip (map (\<lambda>c. eq_str c t) (map (\<lambda>r. r ! j) (rows df))) (rows df)))
                   = filter (\<lambda>r. r ! j = Str t) (rows df)"
    using select_map [of "\<lambda>r. eq_str (r ! j) t" "rows df"] by (simp add: comp_def eq_str_iff)
  ultimately show ?thesis
    using Some getitem_Some [OF Some] by (simp add: filter_ticker_def select_rows_def)
qed

lemma ge_ts_stamp: "is_stamp c \<Longrightarrow> ge_ts c s = Inr (case c of TS t \<Rightarrow> s \<le> t | _ \<Rightarrow> False)"
  by (cases c) auto

lemma le_ts_stamp: "is_stamp c \<Longrightarrow> le_ts c e = Inr (case c of TS t \<Rightarrow> t \<le> e | _ \<Rightarrow> False)"
  by (cases c) auto

lemma date_mask_eq:
  assumes k: "index_of ''Date'' (columns df) = Some k"
    and st: "\<And>r. r \<in> set (rows df) \<Longrightarrow> is_stamp (r ! k)"
  shows "date_mask df ds =
           Inr (map (\<lambda>r. case r ! k of TS t \<Rightarrow> fst ds \<le> t \<and> t \<le> snd ds | _ \<Rightarrow> False) (rows df))"
proof -
  let ?col = "map (\<lambda>r. r ! k) (rows df)"
  have col: "getitem df ''Date'' = Inr ?col" using k by (rule getitem_Some)
  have m1: "mapE (\<lambda>c. ge_ts c (fst ds)) ?col
              = Inr (map (\<lambda>c. case c of TS t \<Rightarrow> fst ds \<le> t | _ \<Rightarrow> False) ?col)"
    using st by (intro mapE_Inr) (auto simp: ge_ts_stamp)
  have m2: "mapE (\<lambda>c. le_ts c (snd ds)) ?col
              = Inr (map (\<lambda>c. case c of TS t \<Rightarrow> t \<le> snd ds | _ \<Rightarrow> False) ?col)"
    using st by (intro mapE_Inr) (auto simp: le_ts_stamp)
  have z: "map (\<lambda>(a, b). a \<and> b) (zip (map f xs) (map g xs)) = map (\<lambda>x. f x \<and> g x) xs"
    for f g :: "cell \<Rightarrow> bool" and xs
    by (induction xs) auto
  have "map (\<lambda>c. (case c of TS t \<Rightarrow> fst ds \<le> t | _ \<Rightarrow> False) \<and> (case c of TS t \<Rightarrow> t \<le> snd ds | _ \<Rightarrow> False)) ?col
          = map (\<lambda>r. case r ! k of TS t \<Rightarrow> fst ds \<le> t \<and> t \<le> snd ds | _ \<Rightarrow> False) (rows df)"
    by (auto split: cell.splits)
  then show ?thesis
    unfolding date_mask_def col bindE.simps m1 m2 z by simp
qed

lemma loaded_D:
  assumes "loaded D"
  obtains k where "index_of ''Date'' (columns D) = Some k"
    and "\<And>r. r \<in> set (rows D) \<Longrightarrow> is_stamp (r ! k)"
proof (cases "index_of ''Date'' (columns D)")
  case None
  with assms show ?thesis by (simp add: loaded_def getitem_def)
next
  case (Some k)
  with assms have "list_all is_stamp (map (\<lambda>r. r ! k) (rows D))"
    by (simp add: loaded_def getitem_def)
  then have "\<And>r. r \<in> set (rows D) \<Longrightarrow> is_stamp (r ! k)"
    by (simp add: list_all_iff)
  with Some that show ?thesis by blast
qed

lemma get_data_eq:
  assumes ld: "loaded D" and ok: "argsort_ok srt"
  shows "get_data srt D sel =
           Inr (D\<lparr>rows := map (\<lambda>i. filter (in_selection D sel) (rows D) ! i)
                              (srt (map (date_at D) (filter (in_selection D sel) (rows D))))\<rparr>)"
proof -
  from ld obtain k where k: "index_of ''Date'' (columns D) = Some k"
    and st: "\<And>r. r \<in> set (rows D) \<Longrightarrow> is_stamp (r ! k)"
    by (auto elim: loaded_D)
  define P1 where "P1 = (\<lambda>r::row. case index_of ''Ticker'' (columns D) of
                              None \<Rightarrow> True | Some j \<Rightarrow> r ! j = Str (ticker sel))"
  define P2 where "P2 = (\<lambda>r::row. case r ! k of
                              TS t \<Rightarrow> fst (dates sel) \<le> t \<and> t \<le> snd (dates sel) | _ \<Rightarrow> False)"
  define R where "R = filter (in_selection D sel) (rows D)"
  define df1 where "df1 = D\<lparr>rows := filter P1 (rows D)\<rparr>"
  define df2 where "df2 = D\<lparr>rows := R\<rparr>"
  have sel: "in_selection D sel = (\<lambda>r. P1 r \<and> P2 r)"
    by (rule ext) (simp add: in_selection_def P1_def P2_def k)
  have s1: "filter_ticker D (ticker sel) = Inr df1"
    by (simp add: filter_ticker_eq df1_def P1_def)
  have k1: "index_of ''Date'' (columns df1) = Some k" by (simp add: df1_def k)
  have st1: "\<And>r. r \<in> set (rows df1) \<Longrightarrow> is_stamp (r ! k)" using st by (simp add: df1_def)
  have s2: "date_mask df1 (dates sel) = Inr (map P2 (rows df1))"
    using date_mask_eq [OF k1 st1] by (simp add: P2_def)
  have s3: "select_rows (map P2 (rows df1)) df1 = df2"
    using select_map [of P2 "rows df1"]
    by (simp add: select_rows_def df1_def df2_def R_def sel conj_commute)
  have k2: "index_of ''Date'' (columns df2) = Some k" by (simp add: df2_def k)
  have ts2: "\<exists>t. r ! k = TS t" if "r \<in> set (rows df2)" for r
  proof -
    from that have "P2 r" by (simp add: df2_def R_def sel)
    then show ?thesis by (cases "r ! k") (auto simp: P2_def)
  qed
  have da: "map (\<lambda>r. the_ts (r ! k)) R = map (date_at D) R"
    by (simp add: date_at_def k)
  have s4: "sort_values srt ''Date'' df2 = Inr (D\<lparr>rows := map (\<lambda>i. R ! i) (srt (map (date_at D) R))\<rparr>)"
    using sort_values_stamps [OF k2 ts2 ok] da by (simp add: df2_def)
  show ?thesis
    unfolding get_data_def s1 bindE.simps s2 s3 s4 R_def ..
qed

lemma get_data_rows:
  fixes D :: frame and sel :: selection and srt :: sorter
  assumes ld: "loaded D" and ok: "argsort_ok srt"
  defines "R \<equiv> filter (in_selection D sel) (rows D)"
  defines "p \<equiv> srt (map (date_at D) R)"
  shows "get_data srt D sel = Inr (D\<lparr>rows := map (\<lambda>i. R ! i) p\<rparr>)"
    and "mset p = mset [0..<length R]"
    and "sorted (map (\<lambda>i. date_at D (R ! i)) p)"
    and "mset (map (\<lambda>i. R ! i) p) = mset R"
    and "map (\<lambda>r. date_at D r) (map (\<lambda>i. R ! i) p) = map (\<lambda>i. map (date_at D) R ! i) p"
proof -
  show "get_data srt D sel = Inr (D\<lparr>rows := map (\<lambda>i. R ! i) p\<rparr>)"
    unfolding R_def p_def by (rule get_data_eq [OF ld ok])
  show mp: "mset p = mset [0..<length R]"
    using ok unfolding argsort_ok_def p_def by (metis length_map)
  then have "set p = set [0..<length R]" by (rule mset_eq_setD)
  then have inb: "\<And>i. i \<in> set p \<Longrightarrow> i < length R" by simp
  then show e: "map (\<lambda>r. date_at D r) (map (\<lambda>i. R ! i) p) = map (\<lambda>i. map (date_at D) R ! i) p"
    by simp
  have eq: "map (\<lambda>i. date_at D (R ! i)) p = map (\<lambda>i. map (date_at D) R ! i) p"
    using inb by simp
  have "sorted (map (\<lambda>i. map (date_at D) R ! i) p)"
    using ok unfolding argsort_ok_def p_def by blast
  then show "sorted (map (\<lambda>i. date_at D (R ! i)) p)"
    by (simp only: eq)
  show "mset (map (\<lambda>i. R ! i) p) = mset R"
    using mp by (rule take_perm)
qed

lemma in_selection_stamp:
  assumes "in_selection D sel r" "index_of ''Date'' (columns D) = Some k"
  shows "r ! k = TS (date_at D r)"
  using assms by (cases "r ! k") (auto simp: in_selection_def date_at_def)













lemma set_unique: "set (unique seen xs) = set xs - set seen"
  by (induction seen xs rule: unique.induct) auto

lemma argsort_ok_Nil: "argsort_ok srt \<Longrightarrow> srt [] = []"
  using argsort_ok_set [of srt "[]"] by simp

lemma get_data_empty:
  assumes ld: "loaded D" and ok: "argsort_ok srt"
    and no: "(''Ticker'' \<in> set (columns D) \<and> Str (ticker sel) \<notin> set (tickers D))
             \<or> snd (dates sel) < fst (dates sel)"
  shows "get_data srt D sel = Inr (D\<lparr>rows := []\<rparr>)"
proof -
  have "\<not> in_selection D sel r" if r: "r \<in> set (rows D)" for r
    using no
  proof
    assume t: "''Ticker'' \<in> set (columns D) \<and> Str (ticker sel) \<notin> set (tickers D)"
    then obtain j where j: "index_of ''Ticker'' (columns D) = Some j"
      using index_of_None [of "''Ticker''" "columns D"] by auto
    from t have t1: "''Ticker'' \<in> set (columns D)"
      and t2: "Str (ticker sel) \<notin> set (tickers D)" by simp_all
    have "tickers D = unique [] (map (\<lambda>r. r ! j) (rows D))"
      using t1 j by (simp add: tickers_def getitem_def)
    with t2 have "Str (ticker sel) \<notin> set (map (\<lambda>r. r ! j) (rows D))"
      by (simp add: set_unique)
    with r have "r ! j \<noteq> Str (ticker sel)" by (metis image_eqI set_map)
    with j show ?thesis by (simp add: in_selection_def)
  next
    assume d: "snd (dates sel) < fst (dates sel)"
    show ?thesis
    proof
      assume "in_selection D sel r"
      then obtain k t where "index_of ''Date'' (columns D) = Some k" "r ! k = TS t"
        "fst (dates sel) \<le> t" "t \<le> snd (dates sel)"
        by (auto simp: in_selection_def split: option.splits cell.splits)
      with d show False by auto
    qed
  qed
  then have "filter (in_selection D sel) (rows D) = []"
    by (simp add: filter_empty_conv)
  then show ?thesis
    using get_data_eq [OF ld ok, of sel] argsort_ok_Nil [OF ok] by simp
qed


lemma getitem_no_rows:
  "name \<in> set (columns D) \<Longrightarrow> getitem (D\<lparr>rows := []\<rparr>) name = Inr []"
  using index_of_None [of name "columns D"] by (auto split: option.splits)

lemma loaded_has_Date: "loaded D \<Longrightarrow> ''Date'' \<in> set (columns D)"
  using index_of_None [of "''Date''" "columns D"]
  by (auto simp: loaded_def getitem_def split: option.splits)

lemma format_2f_zero: "format_2f (Fin 0) = ''0.00''"
  by (simp add: fmt_eval)

subsection \<open>Metrics stage\<close>






subsection \<open>Latest price\<close>



subsection \<open>Snapshot stage\<close>

lemma snapshot_rows:
  "map pair_of_row (map (\<lambda>(n, v). [Str n, Str (format_value v)]) zs)
     = map (\<lambda>(n, v). (n, format_value v)) zs"
  by (induction zs) auto

text \<open>
  Claim C4. The snapshot of an empty series is the empty sequence. Otherwise it pairs
  the column names, in the order of the frame, with the formatted cells of the last
  row: one pair per field. A finite number is formatted with exactly two decimal
  digits (1234.5 gives \<open>1234.50\<close>), a string is itself and a timestamp its \<open>str\<close>.
\<close>

theorem latest_snapshot:
  "(rows df = [] \<longrightarrow> latestSnapshot df = []) \<and>
   (rows df \<noteq> [] \<longrightarrow>
      latestSnapshot df = map (\<lambda>(n, v). (n, format_value v)) (zip (columns df) (last (rows df)))) \<and>
   (rows df \<noteq> [] \<and> length (last (rows df)) = length (columns df) \<longrightarrow>
      map fst (latestSnapshot df) = columns df \<and>
      map snd (latestSnapshot df) = map format_value (last (rows df))) \<and>
   format_value (Num (Fin q)) = format_2f (Fin q) \<and> two_decimals (format_2f (Fin q)) \<and>
   format_2f (Fin (2469 / 2)) = ''1234.50'' \<and>
   format_value (Str s) = s \<and>
   format_value (TS (2024, 1, 5)) = ''2024-01-05 00:00:00''"
proof -
  have a: "rows df = [] \<Longrightarrow> latestSnapshot df = []"
    by (simp add: latestSnapshot_def latest_data_def)
  have b: "latestSnapshot df = map (\<lambda>(n, v). (n, format_value v)) (zip (columns df) (last (rows df)))"
    if "rows df \<noteq> []"
  proof (cases "columns df = []")
    case True
    then show ?thesis by (simp add: latestSnapshot_def latest_data_def)
  next
    case False
    with that show ?thesis
      by (simp add: latestSnapshot_def latest_data_def snapshot_rows del: map_map)
  qed
  have c: "map fst (latestSnapshot df) = columns df \<and>
           map snd (latestSnapshot df) = map format_value (last (rows df))"
    if "rows df \<noteq> []" "length (last (rows df)) = length (columns df)"
  proof -
    have "map fst (map (\<lambda>(n, v). (n, format_value v)) (zip xs ys)) = xs \<and>
          map snd (map (\<lambda>(n, v). (n, format_value v)) (zip xs ys)) = map format_value ys"
      if "length ys = length xs" for xs :: "string list" and ys
      using that by (induction xs ys rule: list_induct2') auto
    from this [OF that(2)] b [OF that(1)] show ?thesis by simp
  qed
  have d: "format_2f (Fin (2469 / 2)) = ''1234.50''" by (simp add: fmt_eval)
  have e: "format_value (TS (2024, 1, 5)) = ''2024-01-05 00:00:00''" by (simp add: fmt_eval)
  show ?thesis
    using a b c d e format_2f_two_decimals [of q] by (simp add: format_value_def)
qed

theorem latest_snapshot_witness:
  "rows local_prices \<noteq> [] \<and> length (last (rows local_prices)) = length (columns local_prices) \<and>
   latestSnapshot local_prices =
     [(''Date'', ''2024-01-03 00:00:00''), (''Open'', ''101.00''), (''High'', ''106.00''),
      (''Low'', ''99.00''), (''Close'', ''105.00'')] \<and>
   map fst (latestSnapshot local_prices) = columns local_prices \<and>
   rows (closes_frame []) = [] \<and> latestSnapshot (closes_frame []) = []"
proof -
  have a: "rows local_prices \<noteq> []" by (simp add: local_prices_def)
  have b: "length (last (rows local_prices)) = length (columns local_prices)"
    by (simp add: local_prices_def)
  have c: "rows (closes_frame []) = []" by (simp add: closes_frame_def)
  note t = latest_snapshot [of local_prices]
  note u = latest_snapshot [of "closes_frame []"]
  have d: "map fst (latestSnapshot local_prices) = columns local_prices"
    using t a b by blast
  have e: "latestSnapshot (closes_frame []) = []" using u c by blast
  have f: "latestSnapshot local_prices =
     [(''Date'', ''2024-01-03 00:00:00''), (''Open'', ''101.00''), (''High'', ''106.00''),
      (''Low'', ''99.00''), (''Close'', ''105.00'')]"
    by (simp add: latestSnapshot_def latest_data_def local_prices_def fmt_eval)
  show ?thesis using a b c d e f by simp
qed

subsection \<open>Filter stage\<close>

text \<open>
  Claim C1. For a loaded dataset, any instrument and any date range, \<open>get_data\<close>
  returns a frame with the columns of the dataset whose rows are exactly the rows of
  the dataset that the selection asks for (instrument equal to the selected one when
  there is a Ticker column, every instrument otherwise; timestamp in the closed
  range), each as often as it occurs, and whose Date column is in ascending order.
\<close>

theorem get_data_filter_sorted:
  assumes "loaded D" and "argsort_ok srt"
  shows "\<exists>out. get_data srt D sel = Inr out \<and> columns out = columns D \<and>
           mset (rows out) = mset (filter (in_selection D sel) (rows D)) \<and>
           set (rows out) = {r \<in> set (rows D). in_selection D sel r} \<and>
           (\<exists>ds. getitem out ''Date'' = Inr (map TS ds) \<and> sorted ds)"
proof -
  define R where "R = filter (in_selection D sel) (rows D)"
  define p where "p = srt (map (date_at D) R)"
  define out where "out = D\<lparr>rows := map (\<lambda>i. R ! i) p\<rparr>"
  note f = get_data_rows [OF assms, of sel, folded R_def p_def]
  from assms(1) obtain k where k: "index_of ''Date'' (columns D) = Some k"
    by (auto elim: loaded_D)
  have g: "get_data srt D sel = Inr out" using f(1) by (simp add: out_def)
  have m: "mset (rows out) = mset R" using f(4) by (simp add: out_def)
  then have "set (rows out) = set R" by (rule mset_eq_setD)
  then have s: "set (rows out) = {r \<in> set (rows D). in_selection D sel r}"
    by (simp add: R_def)
  have "r ! k = TS (date_at D r)" if "r \<in> set (rows out)" for r
    using that s in_selection_stamp [OF _ k] by auto
  then have c: "map (\<lambda>r. r ! k) (rows out) = map TS (map (date_at D) (rows out))"
    by simp
  have ko: "index_of ''Date'' (columns out) = Some k" using k by (simp add: out_def)
  have col: "getitem out ''Date'' = Inr (map TS (map (date_at D) (rows out)))"
    using getitem_Some [OF ko] c by simp
  have srt: "sorted (map (date_at D) (rows out))"
    using f(3) by (simp add: out_def comp_def)
  have d: "\<exists>ds. getitem out ''Date'' = Inr (map TS ds) \<and> sorted ds"
    using col srt by blast
  have co: "columns out = columns D" by (simp add: out_def)
  show ?thesis using g co m s d unfolding R_def by blast
qed

theorem get_data_filter_sorted_witness:
  "loaded prices \<and> argsort_ok stable_argsort \<and>
   (\<exists>out. get_data stable_argsort prices (january ''AAA'') = Inr out \<and>
      columns out = columns prices \<and>
      mset (rows out) = mset (filter (in_selection prices (january ''AAA'')) (rows prices)) \<and>
      set (rows out) = {r \<in> set (rows prices). in_selection prices (january ''AAA'') r} \<and>
      (\<exists>ds. getitem out ''Date'' = Inr (map TS ds) \<and> sorted ds)) \<and>
   get_data stable_argsort prices (january ''AAA'') =
     Inr \<lparr>columns = [''Ticker'', ''Date'', ''Open'', ''High'', ''Low'', ''Close''],
          rows = [[Str ''AAA'', TS (2024, 1, 2), Num (Fin 98), Num (Fin 102), Num (Fin 97), Num (Fin 100)],
                  [Str ''AAA'', TS (2024, 1, 3), Num (Fin 101), Num (Fin 106), Num (Fin 99), Num (Fin 105)]]\<rparr>"
proof -
  have l: "loaded prices" by code_simp
  have e: "get_data stable_argsort prices (january ''AAA'') =
     Inr \<lparr>columns = [''Ticker'', ''Date'', ''Open'', ''High'', ''Low'', ''Close''],
          rows = [[Str ''AAA'', TS (2024, 1, 2), Num (Fin 98), Num (Fin 102), Num (Fin 97), Num (Fin 100)],
                  [Str ''AAA'', TS (2024, 1, 3), Num (Fin 101), Num (Fin 106), Num (Fin 99), Num (Fin 105)]]\<rparr>"
    by code_simp
  show ?thesis
    using l stable_argsort_ok e get_data_filter_sorted [OF l stable_argsort_ok, of "january ''AAA''"]
    by blast
qed








subsection \<open>Empty selections\<close>

text \<open>
  Claim C7, as stated, on a dataset without a Ticker column. Its only identifier is
  \<open>LOCAL\<close> (line 15); for the unknown identifier \<open>XYZ\<close> the filter skips the
  instrument test (line 68) and returns both rows.
\<close>

theorem unknown_instrument_counterexample:
  "loaded local_prices \<and> argsort_ok stable_argsort \<and>
   tickers local_prices = [Str ''LOCAL''] \<and>
   get_data stable_argsort local_prices (january ''XYZ'') =
     Inr \<lparr>columns = [''Date'', ''Open'', ''High'', ''Low'', ''Close''],
          rows = [[TS (2024, 1, 2), Num (Fin 98), Num (Fin 102), Num (Fin 97), Num (Fin 100)],
                  [TS (2024, 1, 3), Num (Fin 101), Num (Fin 106), Num (Fin 99), Num (Fin 105)]]\<rparr>"
proof -
  have l: "loaded local_prices" by code_simp
  have t: "tickers local_prices = [Str ''LOCAL'']" by code_simp
  have e: "get_data stable_argsort local_prices (january ''XYZ'') =
     Inr \<lparr>columns = [''Date'', ''Open'', ''High'', ''Low'', ''Close''],
          rows = [[TS (2024, 1, 2), Num (Fin 98), Num (Fin 102), Num (Fin 97), Num (Fin 100)],
                  [TS (2024, 1, 3), Num (Fin 101), Num (Fin 106), Num (Fin 99), Num (Fin 105)]]\<rparr>"
    by code_simp
  show ?thesis using l t e stable_argsort_ok by simp
qed

text \<open>
  Claim C7, amended. Let the dataset be loaded and carry the columns Open, High, Low
  and Close. For a selection whose range has its start after its end, or whose
  instrument does not occur in the Ticker column of a dataset that has one,
  \<open>get_data\<close> returns the frame without rows, and on it every output is defined:
  change and percent change are 0, the price is \<open>N/A\<close>, the chart has no points and
  no overlay, and the snapshot is empty.
\<close>

theorem empty_selection_no_raise:
  assumes "loaded D" and "argsort_ok srt"
    and "{''Open'', ''High'', ''Low'', ''Close''} \<subseteq> set (columns D)"
    and "(''Ticker'' \<in> set (columns D) \<and> Str (ticker sel) \<notin> set (tickers D))
         \<or> snd (dates sel) < fst (dates sel)"
  shows "\<exists>out. get_data srt D sel = Inr out \<and> rows out = [] \<and> columns out = columns D \<and>
           get_change out = Inr (Fin 0) \<and> get_change_percent out = Inr (Fin 0) \<and>
           price out = Inr ''N/A'' \<and> change out = Inr ''$0.00'' \<and>
           change_percent out = Inr ''0.00%'' \<and>
           change_icon out = Inr (''arrow-up'', ''text-success'') \<and>
           price_history out (ticker sel) =
             Inr \<lparr>candle_x = [], candle_open = [], candle_high = [], candle_low = [],
                  candle_close = [], candle_name = ticker sel, sma_trace = None\<rparr> \<and>
           overlay out (ticker sel) = Inr None \<and>
           latest_data out = \<lparr>columns = [''Category'', ''Value''], rows = []\<rparr> \<and>
           latestSnapshot out = []"
proof -
  define out where "out = D\<lparr>rows := []\<rparr>"
  have g: "get_data srt D sel = Inr out"
    unfolding out_def by (rule get_data_empty [OF assms(1) assms(2) assms(4)])
  have r: "rows out = []" and c: "columns out = columns D" by (simp_all add: out_def)
  have d: "getitem out ''Date'' = Inr []"
    unfolding out_def by (rule getitem_no_rows [OF loaded_has_Date [OF assms(1)]])
  have o: "getitem out ''Open'' = Inr []" and h: "getitem out ''High'' = Inr []"
    and l: "getitem out ''Low'' = Inr []" and cl: "getitem out ''Close'' = Inr []"
    unfolding out_def using assms(3) by (simp_all only: getitem_no_rows insert_subset)
  have m1: "get_change out = Inr (Fin 0)" by (simp add: get_change_def cl)
  have m2: "get_change_percent out = Inr (Fin 0)" by (simp add: get_change_percent_def cl)
  have p: "price out = Inr ''N/A''" by (simp add: price_def cl)
  have t1: "change out = Inr ''$0.00''" by (simp add: change_def m1 format_2f_zero del: format_2f.simps)
  have t2: "change_percent out = Inr ''0.00%''"
    by (simp add: change_percent_def m2 format_2f_zero del: format_2f.simps)
  have ic: "change_icon out = Inr (''arrow-up'', ''text-success'')"
    by (simp add: change_icon_def m1)
  have ph: "price_history out (ticker sel) =
             Inr \<lparr>candle_x = [], candle_open = [], candle_high = [], candle_low = [],
                  candle_close = [], candle_name = ticker sel, sma_trace = None\<rparr>"
    by (simp add: price_history_def price_history_body_def reset_index_def d o h l cl r)
  have ov: "overlay out (ticker sel) = Inr None" by (simp add: overlay_def ph)
  have ld: "latest_data out = \<lparr>columns = [''Category'', ''Value''], rows = []\<rparr>"
    by (simp add: latest_data_def r)
  have ls: "latestSnapshot out = []" by (simp add: latestSnapshot_def ld)
  show ?thesis using g r c m1 m2 p t1 t2 ic ph ov ld ls by blast
qed

theorem empty_selection_no_raise_witness:
  "loaded prices \<and> argsort_ok stable_argsort \<and>
   {''Open'', ''High'', ''Low'', ''Close''} \<subseteq> set (columns prices) \<and>
   ''Ticker'' \<in> set (columns prices) \<and> Str ''ZZZ'' \<notin> set (tickers prices) \<and>
   get_data stable_argsort prices (january ''ZZZ'') = Inr (prices\<lparr>rows := []\<rparr>) \<and>
   get_data stable_argsort prices \<lparr>ticker = ''AAA'', dates = ((2024, 1, 31), (2024, 1, 1))\<rparr>
     = Inr (prices\<lparr>rows := []\<rparr>) \<and>
   price (prices\<lparr>rows := []\<rparr>) = Inr ''N/A'' \<and>
   latestSnapshot (prices\<lparr>rows := []\<rparr>) = []"
proof -
  have l: "loaded prices" by code_simp
  have c: "{''Open'', ''High'', ''Low'', ''Close''} \<subseteq> set (columns prices)"
    by (simp add: prices_def)
  have t: "''Ticker'' \<in> set (columns prices)" by (simp add: prices_def)
  have u: "Str ''ZZZ'' \<notin> set (tickers prices)" by code_simp
  have a: "(''Ticker'' \<in> set (columns prices) \<and> Str (ticker (january ''ZZZ'')) \<notin> set (tickers prices))
         \<or> snd (dates (january ''ZZZ'')) < fst (dates (january ''ZZZ''))"
    using t u by (simp add: january_def)
  define sel2 where "sel2 = \<lparr>ticker = ''AAA'', dates = ((2024, 1, 31), (2024, 1, 1 :: nat))\<rparr>"
  have b: "(''Ticker'' \<in> set (columns prices) \<and> Str (ticker sel2) \<notin> set (tickers prices))
         \<or> snd (dates sel2) < fst (dates sel2)"
    by (simp add: sel2_def)
  note r1 = empty_selection_no_raise [OF l stable_argsort_ok c a]
  note r2 = empty_selection_no_raise [OF l stable_argsort_ok c b]
  have e1: "get_data stable_argsort prices (january ''ZZZ'') = Inr (prices\<lparr>rows := []\<rparr>)"
    by code_simp
  have e2: "get_data stable_argsort prices sel2 = Inr (prices\<lparr>rows := []\<rparr>)"
    unfolding sel2_def by code_simp
  from r1 e1 have s1: "price (prices\<lparr>rows := []\<rparr>) = Inr ''N/A''" by auto
  from r2 e2 have s2: "latestSnapshot (prices\<lparr>rows := []\<rparr>) = []" by auto
  show ?thesis using l stable_argsort_ok c t u e1 e2 s1 s2 unfolding sel2_def by simp
qed

subsection \<open>Series stage\<close>














subsection \<open>The dataset is not changed\<close>

lemma keeps_trans: "keeps_objects a b \<Longrightarrow> keeps_objects b c \<Longrightarrow> keeps_objects a c"
  by (auto simp: keeps_objects_def)

lemma keeps_get_data_st: "keeps_objects st (snd (get_data_st srt data_all sel st))"
  by (auto simp: get_data_st_def new_obj_def keeps_objects_def Let_def
      split: sum.splits prod.splits if_splits)

lemma keeps_price_history_st: "keeps_objects st (snd (price_history_st data name st))"
  by (auto simp: price_history_st_def new_obj_def assign_obj_def keeps_objects_def Let_def
      split: sum.splits prod.splits)

lemma keeps_latest_data_st: "keeps_objects st (snd (latest_data_st data st))"
  by (auto simp: latest_data_st_def new_obj_def keeps_objects_def)

lemma get_data_st_pure:
  "(case get_data_st srt data_all sel st of
      (Inl e, st') \<Rightarrow> get_data srt (heap st data_all) sel = Inl e
    | (Inr r, st') \<Rightarrow> get_data srt (heap st data_all) sel = Inr (heap st' r))"
  by (auto simp: get_data_st_def get_data_def new_obj_def Let_def filter_ticker_def
      split: sum.splits prod.splits if_splits)

text \<open>
  Claim C9. One evaluation of the server for any selection (filter, metrics, chart
  with the assignment of the SMA column, snapshot) leaves every object that existed
  before it as it was; in particular the object \<open>data_all\<close> holds the same columns and
  the same rows in the same order afterwards. The column assignment of line 130 acts
  on the object that \<open>reset_index\<close> has just created.
\<close>

theorem dataset_not_mutated:
  "keeps_objects st (snd (server srt data_all sel st)) \<and>
   (data_all < next_ref st \<longrightarrow>
      heap (snd (server srt data_all sel st)) data_all = heap st data_all)"
proof -
  have k: "keeps_objects st (snd (server srt data_all sel st))"
  proof (cases "get_data_st srt data_all sel st")
    case (Pair res st1)
    then have k1: "keeps_objects st st1" using keeps_get_data_st [of st srt data_all sel] by simp
    show ?thesis
    proof (cases res)
      case (Inl e)
      with Pair k1 show ?thesis by (simp add: server_def)
    next
      case (Inr data)
      obtain fig st2 where p: "price_history_st data (ticker sel) st1 = (fig, st2)"
        by (cases "price_history_st data (ticker sel) st1")
      obtain latest st3 where l: "latest_data_st data st2 = (latest, st3)"
        by (cases "latest_data_st data st2")
      have k2: "keeps_objects st1 st2" using keeps_price_history_st [of st1 data "ticker sel"] p by simp
      have k3: "keeps_objects st2 st3" using keeps_latest_data_st [of st2 data] l by simp
      have "snd (server srt data_all sel st) = st3"
        using Pair Inr p l by (simp add: server_def)
      with keeps_trans [OF k1 keeps_trans [OF k2 k3]] show ?thesis by simp
    qed
  qed
  then show ?thesis by (simp add: keeps_objects_def)
qed

theorem dataset_not_mutated_witness:
  "0 < next_ref (store_of (flat_frame (map Fin [2, 4, 6, 8, 10, 12, 14, 16]))) \<and>
   heap (snd (server stable_argsort 0 (january ''LOCAL'')
           (store_of (flat_frame (map Fin [2, 4, 6, 8, 10, 12, 14, 16]))))) 0
     = flat_frame (map Fin [2, 4, 6, 8, 10, 12, 14, 16]) \<and>
   columns (heap (snd (server stable_argsort 0 (january ''LOCAL'')
           (store_of (flat_frame (map Fin [2, 4, 6, 8, 10, 12, 14, 16]))))) 4)
     = [''Date'', ''Open'', ''High'', ''Low'', ''Close'', ''SMA'']"
proof -
  let ?F = "flat_frame (map Fin [2, 4, 6, 8, 10, 12, 14, 16])"
  have a: "0 < next_ref (store_of ?F)" by (simp add: store_of_def)
  have b: "heap (store_of ?F) 0 = ?F" by (simp add: store_of_def)
  have c: "heap (snd (server stable_argsort 0 (january ''LOCAL'') (store_of ?F))) 0 = ?F"
    using dataset_not_mutated [of "store_of ?F" stable_argsort 0 "january ''LOCAL''"] a b
    by simp
  have d: "columns (heap (snd (server stable_argsort 0 (january ''LOCAL'') (store_of ?F))) 4)
             = [''Date'', ''Open'', ''High'', ''Low'', ''Close'', ''SMA'']"
    by code_simp
  show ?thesis using a c d by simp
qed

end
